theory Spec2Isabelle
  imports Main
begin

section \<open>Python strings as used by the agent\<close>

text \<open>
  The agent of \<^verbatim>\<open>agent.py\<close> handles text with \<^verbatim>\<open>in\<close>, \<^verbatim>\<open>str.split\<close>, \<^verbatim>\<open>str.strip\<close> and list
  indexing. A Python string is modelled as a \<^typ>\<open>string\<close>, each \<^typ>\<open>char\<close> standing for the code
  point of the same number (0 to 255). Operations that raise in Python return a sum whose left
  summand is the exception.
\<close>

datatype py_error = ValueError | IndexError | KeyError

text \<open>
  \<^verbatim>\<open>str.isspace\<close> on one character: the code points below 256 that Python counts as
  whitespace (tab to carriage return, the four separators 28 to 31, space, NEL and the
  no-break space).
\<close>

definition py_isspace :: "char \<Rightarrow> bool" where
  "py_isspace c = (of_char c \<in> {9, 10, 11, 12, 13, 28, 29, 30, 31, 32, 133, 160 :: nat})"

text \<open>\<^verbatim>\<open>s.strip()\<close>: whitespace removed at both ends.\<close>

definition py_strip :: "string \<Rightarrow> string" where
  "py_strip s = rev (dropWhile py_isspace (rev (dropWhile py_isspace s)))"

text \<open>\<^verbatim>\<open>s.startswith(sub)\<close>.\<close>

definition startswith :: "string \<Rightarrow> string \<Rightarrow> bool" where
  "startswith s sub = (take (length sub) s = sub)"

text \<open>\<^verbatim>\<open>s.find(sub)\<close>: the index of the leftmost occurrence, \<open>None\<close> for Python's \<open>-1\<close>.\<close>

fun py_find :: "string \<Rightarrow> string \<Rightarrow> nat option" where
  "py_find [] sub = (if sub = [] then Some 0 else None)"
| "py_find (c # cs) sub =
     (if startswith (c # cs) sub then Some 0 else map_option Suc (py_find cs sub))"

text \<open>\<^verbatim>\<open>sub in s\<close>.\<close>

definition py_in :: "string \<Rightarrow> string \<Rightarrow> bool" where
  "py_in sub s = (py_find s sub \<noteq> None)"

lemma py_find_bound: "py_find s sub = Some i \<Longrightarrow> i + length sub \<le> length s"
proof (induction s arbitrary: i)
  case Nil
  then show ?case by (simp split: if_splits)
next
  case (Cons c cs)
  show ?case
  proof (cases "startswith (c # cs) sub")
    case True
    then have "length (take (length sub) (c # cs)) = length sub"
      unfolding startswith_def by simp
    then have "length sub \<le> length (c # cs)"
      by (simp del: take_Suc_Cons take_Cons_numeral)
    with True Cons.prems show ?thesis by simp
  next
    case False
    with Cons.prems obtain j where j: "py_find cs sub = Some j" "i = Suc j"
      by auto
    from Cons.IH [OF j(1)] j(2) show ?thesis by simp
  qed
qed

text \<open>
  The loop of \<^verbatim>\<open>s.split(sep)\<close> for a non-empty separator: cut at the leftmost occurrence,
  go on behind it. The first branch only makes the function total; \<open>py_split\<close> below never
  reaches it.
\<close>

function split_loop :: "string \<Rightarrow> string \<Rightarrow> string list" where
  "split_loop sep s =
     (if sep = [] then []
      else (case py_find s sep of
              None \<Rightarrow> [s]
            | Some i \<Rightarrow> take i s # split_loop sep (drop (i + length sep) s)))"
  by pat_completeness auto
termination
proof (relation "measure (\<lambda>(sep, s). length s)")
  show "wf (measure (\<lambda>(sep, s). length s))" by simp
next
  fix sep s :: string and i :: nat
  assume ne: "sep \<noteq> []" and f: "py_find s sep = Some i"
  from py_find_bound [OF f] ne have "0 < length s" by (cases sep) auto
  with ne show "((sep, drop (i + length sep) s), (sep, s)) \<in> measure (\<lambda>(sep, s). length s)"
    by (cases sep) auto
qed

declare split_loop.simps [simp del]

text \<open>\<^verbatim>\<open>s.split(sep)\<close>; an empty separator raises \<^verbatim>\<open>ValueError\<close>.\<close>

definition py_split :: "string \<Rightarrow> string \<Rightarrow> py_error + string list" where
  "py_split s sep = (if sep = [] then Inl ValueError else Inr (split_loop sep s))"

text \<open>\<^verbatim>\<open>xs[i]\<close> for an index that is not negative.\<close>

definition py_index :: "'a list \<Rightarrow> nat \<Rightarrow> py_error + 'a" where
  "py_index xs i = (if i < length xs then Inr (xs ! i) else Inl IndexError)"

section \<open>Code extraction\<close>

text \<open>
  \<^verbatim>\<open>
  def _extract_code(text: str) -> Optional[str]:
      if "```python" in text:
          return text.split("```python")[1].split("```")[0].strip()
      return text.strip() if text else None
  \<close>
\<close>

definition extract_code :: "string \<Rightarrow> py_error + string option" where
  "extract_code text =
     (if py_in ''```python'' text then
        (case py_split text ''```python'' of
           Inl e \<Rightarrow> Inl e
         | Inr parts \<Rightarrow>
             (case py_index parts 1 of
                Inl e \<Rightarrow> Inl e
              | Inr block \<Rightarrow>
                  (case py_split block ''```'' of
                     Inl e \<Rightarrow> Inl e
                   | Inr pieces \<Rightarrow>
                       (case py_index pieces 0 of
                          Inl e \<Rightarrow> Inl e
                        | Inr inner \<Rightarrow> Inr (Some (py_strip inner))))))
      else if text \<noteq> [] then Inr (Some (py_strip text))
      else Inr None)"

text \<open>
  The part of a text in front of the leftmost occurrence of a separator, the whole text when the
  separator does not occur: the words in which the result of the extraction is described.
\<close>

definition before_first :: "string \<Rightarrow> string \<Rightarrow> string" where
  "before_first sep s = (case py_find s sep of None \<Rightarrow> s | Some i \<Rightarrow> take i s)"

text \<open>Truth value of an optional string (\<^verbatim>\<open>if code:\<close>): \<^verbatim>\<open>None\<close> and \<^verbatim>\<open>""\<close> are false.\<close>

definition truthy :: "string option \<Rightarrow> bool" where
  "truthy v = (case v of None \<Rightarrow> False | Some s \<Rightarrow> s \<noteq> [])"

text \<open>An optional string inside an f-string: \<^verbatim>\<open>None\<close> is rendered as the word.\<close>

definition format_optional :: "string option \<Rightarrow> string" where
  "format_optional v = (case v of None \<Rightarrow> ''None'' | Some s \<Rightarrow> s)"

text \<open>The text of an exception raised by the string operations (\<^verbatim>\<open>str(e)\<close>).\<close>

definition error_text :: "py_error \<Rightarrow> string" where
  "error_text e =
     (case e of
        ValueError \<Rightarrow> ''empty separator''
      | IndexError \<Rightarrow> ''list index out of range''
      | KeyError \<Rightarrow> ''KeyError'')"

section \<open>Session state and the outside world\<close>

text \<open>The \<^verbatim>\<open>AgentState\<close> dictionary; a message is a pair of role and content.\<close>

record AgentState =
  messages :: "(string \<times> string) list"
  target_bank :: string
  parser_path :: string
  csv_path :: string
  current_code :: "string option"
  test_results :: "string option"
  attempt_count :: int
  max_attempts :: int
  task_complete :: bool

text \<open>
  What the collaborators answer. \<^verbatim>\<open>pd.read_csv(...).columns.tolist()\<close> gives the column
  names or raises; \<^verbatim>\<open>model.generate_content(prompt)\<close> with \<^verbatim>\<open>response.text\<close> gives a text or raises;
  \<^verbatim>\<open>subprocess.run(..., timeout=60)\<close> gives return code, standard output and standard error, or
  raises (the timeout, or the process cannot be started). A raised exception carries its text.
  Writing the artifact (\<^verbatim>\<open>os.makedirs\<close>, \<^verbatim>\<open>open(path, 'w')\<close>, \<^verbatim>\<open>f.write(code)\<close>) succeeds or raises; when
  it raises, the file is either as it was (\<open>None\<close>) or holds what got written before the failure,
  possibly nothing (\<open>Some\<close>).
\<close>

datatype read_csv_result = Columns "string list" | ReadRaises string

datatype generate_result = ResponseText string | GenerateRaises string

datatype run_result = CompletedProcess int string string | RunRaises string

datatype write_result = Written | WriteRaises string "string option"

text \<open>
  The world of one run. Each answer may depend on how many calls of its kind came before, and on
  what the call is given: the path read, the prompt sent, the files the test process finds, the
  path and the text written.
  \<open>cwd_join\<close> is \<^verbatim>\<open>str(Path.cwd() / a / b / ...)\<close>.
\<close>

record world =
  cwd_join :: "string list \<Rightarrow> string"
  read_csv :: "nat \<Rightarrow> string \<Rightarrow> read_csv_result"
  generate_content :: "nat \<Rightarrow> string \<Rightarrow> generate_result"
  write_text :: "nat \<Rightarrow> string \<Rightarrow> string \<Rightarrow> write_result"
  subprocess_run :: "nat \<Rightarrow> (string \<rightharpoonup> string) \<Rightarrow> run_result"

text \<open>
  The nodes of the graph built by \<^verbatim>\<open>_build_graph\<close>, with \<open>END\<close> and the case of an exception that
  leaves \<^verbatim>\<open>workflow.invoke\<close>.
\<close>

datatype node = plan | generate_code | run_tests | self_fix | END | Raised string

text \<open>
  A configuration of a run: the node to execute next, the session state, the files written so
  far, and three records of what has happened: the prompts sent to the generation service
  (oldest first), how often the generation node was entered, how often the test process was
  started.
\<close>

record config =
  node :: node
  state :: AgentState
  files :: "string \<rightharpoonup> string"
  prompts :: "string list"
  generations :: nat
  test_runs :: nat

section \<open>The nodes\<close>

text \<open>
  \<^verbatim>\<open>_plan_node\<close> appends one message. (The \<^verbatim>\<open>print\<close> calls of the nodes are left out. So is the
  reducer \<^verbatim>\<open>add_messages\<close> through which the graph library merges the returned messages into
  its channel, and which may keep the appended message more than once; no node reads the
  messages and no property below speaks of them.)
\<close>

definition plan_node :: "AgentState \<Rightarrow> AgentState" where
  "plan_node st =
     st\<lparr>messages := messages st @
          [(''user'', ''Plan a Python parser for '' @ target_bank st @ ''.'')]\<rparr>"

text \<open>
  The prompt of \<^verbatim>\<open>_generate_code_node\<close>. \<open>csv_schema\<close>, the column names just read, is in
  scope where the f-string is built; the f-string interpolates the target and
  \<^verbatim>\<open>state.get('test_results', ...)\<close>, whose key is always present.
\<close>

definition build_prompt :: "string list \<Rightarrow> AgentState \<Rightarrow> string" where
  "build_prompt csv_schema st =
     ''\<newline>        You are an expert Python developer. Generate a parser for ''
     @ [CHR 0x27] @ target_bank st @ [CHR 0x27] @ '' bank statements.\<newline>''
     @ ''\<newline>''
     @ ''        **CRITICAL INSTRUCTIONS:**\<newline>''
     @ ''        1.  The PDF data has exactly 5 columns. Your parser must extract and handle exactly 5 columns.\<newline>''
     @ ''        2.  The required output DataFrame columns are STRICTLY: `['Date', 'Description', 'Debit Amt', 'Credit Amt', 'Balance']`.\<newline>''
     @ ''        3.  **DO NOT HALLUCINATE OR ADD EXTRA COLUMNS.** Specifically, do not add a 'Chq./Ref.No.' column. This is the most common cause of failure.\<newline>''
     @ ''        4.  Use `pdfplumber` and `page.extract_tables()`.\<newline>''
     @ ''        5.  Create the DataFrame from a list of dictionaries to ensure column mapping is correct.\<newline>''
     @ ''\<newline>''
     @ ''        **Feedback from previous attempt:** '' @ format_optional (test_results st) @ ''\<newline>''
     @ ''\<newline>''
     @ ''        Provide only the complete, runnable Python code.\<newline>''
     @ ''        ''"

text \<open>
  \<^verbatim>\<open>_generate_code_node\<close>. Reading the reference file is outside the \<^verbatim>\<open>try\<close>: if it raises, the
  exception leaves the node (\<open>Inl\<close>). Inside the \<^verbatim>\<open>try\<close>, anything raised by the service, by the
  extraction or by the write of the artifact ends in the \<^verbatim>\<open>except\<close> branch.
\<close>

definition generate_code_node :: "world \<Rightarrow> config \<Rightarrow> string + config" where
  "generate_code_node w c =
     (case read_csv w (generations c) (csv_path (state c)) of
        ReadRaises e \<Rightarrow> Inl e
      | Columns csv_schema \<Rightarrow>
          (let prompt = build_prompt csv_schema (state c);
               c1 = c\<lparr>prompts := prompts c @ [prompt], generations := Suc (generations c)\<rparr>;
               failed = (\<lambda>e. c1\<lparr>state := (state c)\<lparr>current_code := None,
                  test_results := Some (''An exception occurred during code generation: '' @ e)\<rparr>\<rparr>);
               no_code = c1\<lparr>state := (state c)\<lparr>current_code := None,
                  test_results := Some ''Failed to generate valid Python code.''\<rparr>\<rparr>
           in Inr
             (case generate_content w (length (prompts c)) prompt of
                GenerateRaises e \<Rightarrow> failed e
              | ResponseText text \<Rightarrow>
                  (case extract_code text of
                     Inl e \<Rightarrow> failed (error_text e)
                   | Inr None \<Rightarrow> no_code
                   | Inr (Some code) \<Rightarrow>
                       if code \<noteq> [] then
                         (case write_text w (generations c) (parser_path (state c)) code of
                            Written \<Rightarrow>
                              c1\<lparr>files := (files c)(parser_path (state c) \<mapsto> code),
                                 state := (state c)\<lparr>current_code := Some code\<rparr>\<rparr>
                          | WriteRaises e left \<Rightarrow>
                              (failed e)\<lparr>files :=
                                 (case left of
                                    None \<Rightarrow> files c
                                  | Some partial \<Rightarrow> (files c)(parser_path (state c) \<mapsto> partial))\<rparr>)
                       else no_code))))"

text \<open>\<^verbatim>\<open>_run_tests_node\<close>: one call of the test process, every exception caught.\<close>

definition run_tests_node :: "world \<Rightarrow> config \<Rightarrow> config" where
  "run_tests_node w c =
     (let c1 = c\<lparr>test_runs := Suc (test_runs c)\<rparr>
      in case subprocess_run w (test_runs c) (files c) of
           CompletedProcess returncode out err \<Rightarrow>
             if returncode = 0 then
               c1\<lparr>state := (state c)\<lparr>test_results := Some ''All tests passed successfully.'',
                  task_complete := True\<rparr>\<rparr>
             else
               c1\<lparr>state := (state c)\<lparr>test_results :=
                    Some (''Tests failed.\<newline>STDOUT:\<newline>'' @ out @ ''\<newline>STDERR:\<newline>'' @ err),
                  task_complete := False\<rparr>\<rparr>
         | RunRaises e \<Rightarrow>
             c1\<lparr>state := (state c)\<lparr>test_results :=
                  Some (''An unexpected error occurred while running tests: '' @ e),
                task_complete := False\<rparr>\<rparr>)"

text \<open>\<^verbatim>\<open>_self_fix_node\<close>.\<close>

definition self_fix_node :: "AgentState \<Rightarrow> AgentState" where
  "self_fix_node st = st\<lparr>attempt_count := attempt_count st + 1\<rparr>"

text \<open>The two routing functions, \<^verbatim>\<open>_should_test\<close> and \<^verbatim>\<open>_should_continue_fixing\<close>.\<close>

definition should_test :: "AgentState \<Rightarrow> string" where
  "should_test st = (if truthy (current_code st) then ''test'' else ''end'')"

definition should_continue_fixing :: "AgentState \<Rightarrow> string" where
  "should_continue_fixing st =
     (if task_complete st then ''end''
      else if attempt_count st < max_attempts st then ''fix'' else ''end'')"

section \<open>The graph\<close>

text \<open>
  A conditional edge looks the label up in its dictionary; a label that is missing there would
  raise.
\<close>

definition route :: "(string \<times> node) list \<Rightarrow> string \<Rightarrow> node" where
  "route table label =
     (case map_of table label of None \<Rightarrow> Raised (error_text KeyError) | Some n \<Rightarrow> n)"

text \<open>
  One step of the compiled graph: run the node, follow its edge.
  \<^verbatim>\<open>
  workflow.set_entry_point("plan")
  workflow.add_edge("plan", "generate_code")
  workflow.add_conditional_edges("generate_code", self._should_test, {"test": "run_tests", "end": END})
  workflow.add_conditional_edges("run_tests", self._should_continue_fixing, {"fix": "self_fix", "end": END})
  workflow.add_edge("self_fix", "generate_code")
  \<close>
\<close>

definition step :: "world \<Rightarrow> config \<Rightarrow> config" where
  "step w c =
     (case node c of
        plan \<Rightarrow> c\<lparr>node := generate_code, state := plan_node (state c)\<rparr>
      | generate_code \<Rightarrow>
          (case generate_code_node w c of
             Inl e \<Rightarrow> c\<lparr>node := Raised e, generations := Suc (generations c)\<rparr>
           | Inr c' \<Rightarrow>
               c'\<lparr>node := route [(''test'', run_tests), (''end'', END)] (should_test (state c'))\<rparr>)
      | run_tests \<Rightarrow>
          (let c' = run_tests_node w c
           in c'\<lparr>node := route [(''fix'', self_fix), (''end'', END)]
                  (should_continue_fixing (state c'))\<rparr>)
      | self_fix \<Rightarrow> c\<lparr>node := generate_code, state := self_fix_node (state c)\<rparr>
      | END \<Rightarrow> c
      | Raised e \<Rightarrow> c)"

text \<open>A run is over at \<open>END\<close> and when an exception has left the graph.\<close>

definition terminal :: "config \<Rightarrow> bool" where
  "terminal c = (case node c of END \<Rightarrow> True | Raised e \<Rightarrow> True | _ \<Rightarrow> False)"

text \<open>The configuration after at most \<open>n\<close> steps: no step is taken from a terminal one.\<close>

fun steps :: "world \<Rightarrow> nat \<Rightarrow> config \<Rightarrow> config" where
  "steps w 0 c = c"
| "steps w (Suc n) c = (if terminal c then c else steps w n (step w c))"

text \<open>
  \<^verbatim>\<open>workflow.invoke\<close> with a bound on the number of steps: the final configuration, or \<open>None\<close> when
  the run is not over after \<open>fuel\<close> steps. (The graph library has a cap of its own on the steps
  of one invocation; it is no part of \<^verbatim>\<open>agent.py\<close> and is left out: where it applies, the run
  ends earlier, by an exception.)
\<close>

definition invoke :: "world \<Rightarrow> nat \<Rightarrow> config \<Rightarrow> config option" where
  "invoke w fuel c = (if terminal (steps w fuel c) then Some (steps w fuel c) else None)"

section \<open>The public entry points\<close>

text \<open>The initial state built by \<^verbatim>\<open>run\<close>, and the configuration the graph starts from.\<close>

definition initial_state :: "world \<Rightarrow> string \<Rightarrow> int \<Rightarrow> AgentState" where
  "initial_state w target limit =
     \<lparr>messages = [],
      target_bank = target,
      parser_path = cwd_join w [''custom_parsers'', target @ ''_parser.py''],
      csv_path = cwd_join w [''data'', target, target @ ''_sample.csv''],
      current_code = None,
      test_results = None,
      attempt_count = 1,
      max_attempts = limit,
      task_complete = False\<rparr>"

definition initial_config :: "world \<Rightarrow> (string \<rightharpoonup> string) \<Rightarrow> string \<Rightarrow> int \<Rightarrow> config" where
  "initial_config w fs target limit =
     \<lparr>node = plan, state = initial_state w target limit, files = fs, prompts = [],
      generations = 0, test_runs = 0\<rparr>"

text \<open>
  \<^verbatim>\<open>def run(self, target_bank: str, max_attempts: int = 3)\<close>: an argument that is left out takes
  the default.
\<close>

definition run :: "world \<Rightarrow> (string \<rightharpoonup> string) \<Rightarrow> nat \<Rightarrow> string \<Rightarrow> int option \<Rightarrow> config option" where
  "run w fs fuel target limit_arg =
     invoke w fuel (initial_config w fs target (case limit_arg of None \<Rightarrow> 3 | Some m \<Rightarrow> m))"

text \<open>
  \<^verbatim>\<open>main\<close> declares two command-line arguments, parses the command line, builds the agent with the
  key and calls \<^verbatim>\<open>agent.run(target_bank=args.target)\<close>.
  \<^verbatim>\<open>
  parser.add_argument("--target", required=True, help="Target bank (e.g., 'icici').")
  parser.add_argument("--api-key", required=True, help="Google Gemini API key.")
  \<close>
\<close>

record argument =
  option_string :: string
  required :: bool
  help_text :: string

definition main_arguments :: "argument list" where
  "main_arguments =
     [\<lparr>option_string = ''--target'', required = True, help_text = ''Target bank (e.g., 'icici').''\<rparr>,
      \<lparr>option_string = ''--api-key'', required = True, help_text = ''Google Gemini API key.''\<rparr>]"

text \<open>The namespace the parser returns for these declarations.\<close>

record namespace =
  arg_target :: string
  arg_api_key :: string

datatype outcome = SystemExit | Ran "config option"

text \<open>
  \<open>parse_args\<close> is the argument parser of the library: from the declared arguments and the command
  line to a namespace, or to the exit of the process. \<open>service\<close> is the world in which an agent
  built with a given key runs.
\<close>

definition main ::
  "(argument list \<Rightarrow> string list \<Rightarrow> namespace option) \<Rightarrow> (string \<Rightarrow> world) \<Rightarrow>
   (string \<rightharpoonup> string) \<Rightarrow> nat \<Rightarrow> string list \<Rightarrow> outcome" where
  "main parse_args service fs fuel argv =
     (case parse_args main_arguments argv of
        None \<Rightarrow> SystemExit
      | Some args \<Rightarrow> Ran (run (service (arg_api_key args)) fs fuel (arg_target args) None))"

section \<open>Notions used in the properties\<close>

text \<open>
  A generation that yields no code: the service raises, or the extraction finds nothing or the
  empty text in the response (which covers the empty response).
\<close>

definition no_code :: "generate_result \<Rightarrow> bool" where
  "no_code r =
     (case r of
        GenerateRaises e \<Rightarrow> True
      | ResponseText t \<Rightarrow> extract_code t = Inr None \<or> extract_code t = Inr (Some []))"

text \<open>
  What holds in every configuration of a run: a completed task is at \<open>END\<close>; the attempt counter
  is at most the larger of 1 and the limit, and below the limit in front of a correction; the
  number of generation cycles follows the attempt counter.
\<close>

definition invariant :: "config \<Rightarrow> bool" where
  "invariant c =
     ((task_complete (state c) \<longrightarrow> node c = END) \<and>
      attempt_count (state c) \<le> max 1 (max_attempts (state c)) \<and>
      (node c = self_fix \<longrightarrow> attempt_count (state c) < max_attempts (state c)) \<and>
      int (generations c) =
        (if node c = plan \<or> node c = generate_code then attempt_count (state c) - 1
         else attempt_count (state c)))"

text \<open>A bound on the number of steps a configuration still has in front of it.\<close>

definition remaining :: "config \<Rightarrow> nat" where
  "remaining c =
     (let left = nat (max_attempts (state c) - attempt_count (state c))
      in case node c of
           plan \<Rightarrow> 3 * left + 3
         | generate_code \<Rightarrow> 3 * left + 2
         | run_tests \<Rightarrow> 3 * left + 1
         | self_fix \<Rightarrow> 3 * nat (max_attempts (state c) - (attempt_count (state c) + 1)) + 3
         | END \<Rightarrow> 0
         | Raised e \<Rightarrow> 0)"

section \<open>Sample worlds\<close>

text \<open>
  Concrete worlds on which runs are computed: a working directory, a reference file with the
  given columns, a service that always gives the same answer, writes that succeed and a test
  process that always ends the same way.
\<close>

definition sample_world :: "string list \<Rightarrow> generate_result \<Rightarrow> run_result \<Rightarrow> world" where
  "sample_world columns answer result =
     \<lparr>cwd_join = (\<lambda>parts. concat (map (\<lambda>p. ''/'' @ p) parts)),
      read_csv = (\<lambda>n path. Columns columns),
      generate_content = (\<lambda>n prompt. answer),
      write_text = (\<lambda>n path code. Written),
      subprocess_run = (\<lambda>n fs. result)\<rparr>"

definition failing_world :: world where
  "failing_world =
     sample_world [''Date'', ''Balance''] (ResponseText ''```python\<newline>x = 1\<newline>```'')
       (CompletedProcess 1 ''out'' ''err'')"

definition passing_world :: world where
  "passing_world =
     sample_world [''Date'', ''Balance''] (ResponseText ''```python\<newline>x = 1\<newline>```'')
       (CompletedProcess 0 ''out'' ''err'')"

definition blank_world :: world where
  "blank_world =
     sample_world [''Date'', ''Balance''] (ResponseText ''  \<newline>'')
       (CompletedProcess 0 ''out'' ''err'')"

definition timeout_world :: world where
  "timeout_world =
     sample_world [''Date'', ''Balance''] (ResponseText ''```python\<newline>x = 1\<newline>```'')
       (RunRaises ''timed out after 60 seconds'')"

definition other_columns_world :: world where
  "other_columns_world =
     sample_world [''When'', ''What'', ''Amount''] (ResponseText ''```python\<newline>x = 1\<newline>```'')
       (CompletedProcess 1 ''out'' ''err'')"

definition unreadable_world :: world where
  "unreadable_world = failing_world\<lparr>read_csv := (\<lambda>n path. ReadRaises ''No such file'')\<rparr>"

text \<open>The configuration in which a run is about to generate for the first time.\<close>

definition first_generation :: "world \<Rightarrow> config" where
  "first_generation w = step w (initial_config w Map.empty ''icici'' 3)"

text \<open>
  A stand-in for the argument parser, used below on plain command lines only: every option is
  written out in full and followed by a value that does not begin with a dash. There an option
  that is not declared, a missing value or a missing required option ends the process, as it
  does in the library; the abbreviated options and the other forms the library knows are not
  covered. The service of the sample is the same for every key.
\<close>

fun parse_pairs :: "argument list \<Rightarrow> string list \<Rightarrow> (string \<times> string) list option" where
  "parse_pairs declared [] = Some []"
| "parse_pairs declared [a] = None"
| "parse_pairs declared (a # v # rest) =
     (if a \<in> set (map option_string declared)
      then map_option (\<lambda>kv. kv @ [(a, v)]) (parse_pairs declared rest)
      else None)"

definition sample_parse_args :: "argument list \<Rightarrow> string list \<Rightarrow> namespace option" where
  "sample_parse_args declared argv =
     (case parse_pairs declared argv of
        None \<Rightarrow> None
      | Some kv \<Rightarrow>
          (case (map_of kv ''--target'', map_of kv ''--api-key'') of
             (Some t, Some k) \<Rightarrow> Some \<lparr>arg_target = t, arg_api_key = k\<rparr>
           | _ \<Rightarrow> None))"

definition sample_service :: "string \<Rightarrow> world" where
  "sample_service key = passing_world"

section \<open>Properties of the string operations\<close>

lemma split_loop_None: "sep \<noteq> [] \<Longrightarrow> py_find s sep = None \<Longrightarrow> split_loop sep s = [s]"
  by (subst split_loop.simps) simp

lemma split_loop_Some:
  "sep \<noteq> [] \<Longrightarrow> py_find s sep = Some i \<Longrightarrow>
   split_loop sep s = take i s # split_loop sep (drop (i + length sep) s)"
  by (subst split_loop.simps) simp

lemma split_loop_first:
  "sep \<noteq> [] \<Longrightarrow> \<exists>rest. split_loop sep s = before_first sep s # rest"
  by (cases "py_find s sep") (simp_all add: split_loop_None split_loop_Some before_first_def)

lemma startswith_iff: "startswith s sub \<longleftrightarrow> (\<exists>t. s = sub @ t)"
proof
  assume "startswith s sub"
  then have "s = sub @ drop (length sub) s"
    unfolding startswith_def by (metis append_take_drop_id)
  then show "\<exists>t. s = sub @ t" ..
next
  assume "\<exists>t. s = sub @ t"
  then show "startswith s sub" unfolding startswith_def by auto
qed

lemma startswith_append: "startswith s (a @ b) \<Longrightarrow> startswith s a"
  unfolding startswith_iff by auto


lemma py_find_prefix: "py_find s (a @ b) = Some j \<Longrightarrow> \<exists>k. py_find s a = Some k"
proof (induction s arbitrary: j)
  case Nil
  then show ?case by (simp split: if_splits)
next
  case (Cons c cs)
  show ?case
  proof (cases "startswith (c # cs) a")
    case True
    then show ?thesis by simp
  next
    case False
    then have "\<not> startswith (c # cs) (a @ b)" using startswith_append by blast
    with Cons.prems obtain j' where "py_find cs (a @ b) = Some j'" by auto
    from Cons.IH [OF this] False show ?thesis by auto
  qed
qed

lemma py_find_all:
  "\<forall>c\<in>set s. P c \<Longrightarrow> d \<in> set sub \<Longrightarrow> \<not> P d \<Longrightarrow> py_find s sub = None"
proof (induction s)
  case Nil
  then show ?case by auto
next
  case (Cons c cs)
  have "\<not> startswith (c # cs) sub"
  proof
    assume "startswith (c # cs) sub"
    then obtain t where "c # cs = sub @ t" unfolding startswith_iff by blast
    then have "set sub \<subseteq> set (c # cs)" by (metis set_append Un_upper1)
    with Cons.prems show False by auto
  qed
  with Cons show ?case by simp
qed

lemma startswith_take:
  "startswith s sub \<Longrightarrow> length sub \<le> q \<Longrightarrow> startswith (take q s) sub"
  unfolding startswith_iff by auto

lemma startswith_take_rev:
  "startswith (take q s) sub \<Longrightarrow> startswith s sub"
proof -
  assume "startswith (take q s) sub"
  then obtain t where "take q s = sub @ t" unfolding startswith_iff by blast
  then have "s = sub @ (t @ drop q s)" by (metis append_take_drop_id append_assoc)
  then show ?thesis unfolding startswith_iff by blast
qed

lemma py_find_take:
  "py_find s sub = Some p \<Longrightarrow> p + length sub \<le> q \<Longrightarrow> py_find (take q s) sub = Some p"
proof (induction s arbitrary: p q)
  case Nil
  then show ?case by (simp split: if_splits)
next
  case (Cons c cs)
  show ?case
  proof (cases "startswith (c # cs) sub")
    case True
    with Cons.prems have p: "p = 0" and q: "length sub \<le> q" by simp_all
    from startswith_take [OF True q] have sw: "startswith (take q (c # cs)) sub" .
    show ?thesis
    proof (cases q)
      case 0
      with q have "sub = []" by simp
      with 0 p show ?thesis by simp
    next
      case (Suc q')
      with sw have "startswith (c # take q' cs) sub" by simp
      with Suc p show ?thesis by simp
    qed
  next
    case False
    with Cons.prems obtain p' where p': "py_find cs sub = Some p'" "p = Suc p'" by auto
    with Cons.prems obtain q' where q': "q = Suc q'" "p' + length sub \<le> q'"
      by (cases q) auto
    have "\<not> startswith (c # take q' cs) sub"
      using False startswith_take_rev [of "Suc q'" "c # cs" sub] by auto
    with Cons.IH [OF p'(1) q'(2)] p'(2) q'(1) show ?thesis by simp
  qed
qed


lemma extract_code_fenced:
  assumes "py_find text ''```python'' = Some i"
  shows "extract_code text =
    Inr (Some (py_strip (before_first ''```'' (before_first ''```python'' (drop (i + 9) text)))))"
proof -
  let ?rest = "drop (i + 9) text"
  obtain r1 where r1: "split_loop ''```python'' ?rest = before_first ''```python'' ?rest # r1"
    using split_loop_first [of "''```python''" ?rest] by auto
  have "split_loop ''```python'' text =
      take i text # split_loop ''```python'' (drop (i + length ''```python'') text)"
    by (rule split_loop_Some) (simp, fact assms)
  moreover have "i + length ''```python'' = i + 9" by simp
  ultimately have parts:
    "split_loop ''```python'' text = take i text # before_first ''```python'' ?rest # r1"
    using r1 by (simp only:)
  obtain r2 where r2: "split_loop ''```'' (before_first ''```python'' ?rest) =
      before_first ''```'' (before_first ''```python'' ?rest) # r2"
    using split_loop_first [of "''```''" "before_first ''```python'' ?rest"] by auto
  show ?thesis
    unfolding extract_code_def py_in_def py_split_def py_index_def
    by (simp add: assms parts r2)
qed

lemma extract_code_plain:
  "py_find text ''```python'' = None \<Longrightarrow>
   extract_code text = (if text \<noteq> [] then Inr (Some (py_strip text)) else Inr None)"
  unfolding extract_code_def py_in_def by simp

lemma no_fence_without_backticks:
  "py_find s ''```'' = None \<Longrightarrow> py_find s ''```python'' = None"
  using py_find_prefix [of s "''```''" "''python''"] by (cases "py_find s ''```python''") auto

lemma before_first_twice:
  assumes "py_find s ''```'' = Some p"
    and "py_find s ''```python'' = None \<or> (\<exists>q. py_find s ''```python'' = Some q \<and> p + 3 \<le> q)"
  shows "before_first ''```'' (before_first ''```python'' s) = take p s"
proof (cases "py_find s ''```python''")
  case None
  with assms(1) show ?thesis by (simp add: before_first_def)
next
  case (Some q)
  with assms(2) have pq: "p + 3 \<le> q" by simp
  have "py_find (take q s) ''```'' = Some p"
    using py_find_take [OF assms(1), of q] pq by simp
  with Some pq show ?thesis by (simp add: before_first_def min_absorb1)
qed

lemma py_strip_whitespace:
  assumes "\<forall>c\<in>set s. py_isspace c"
  shows "py_strip s = []"
proof -
  from assms have "dropWhile py_isspace s = []" by (simp add: dropWhile_eq_Nil_conv)
  then show ?thesis unfolding py_strip_def by (simp only: rev.simps dropWhile.simps)
qed

lemma py_find_whitespace: "\<forall>c\<in>set s. py_isspace c \<Longrightarrow> py_find s ''```python'' = None"
  by (rule py_find_all [where P = py_isspace and d = "CHR 0x60"]) (simp_all add: py_isspace_def)

lemma extract_code_never_raises: "\<exists>v. extract_code text = Inr v"
  by (cases "py_find text ''```python''") (simp_all add: extract_code_fenced extract_code_plain)

lemma py_in_here: "py_in sub (sub @ rest)"
proof (cases "sub @ rest")
  case Nil
  then show ?thesis by (simp add: py_in_def)
next
  case (Cons c cs)
  have "startswith (sub @ rest) sub" by (simp add: startswith_def)
  with Cons have "startswith (c # cs) sub" by simp
  then have "py_find (c # cs) sub = Some 0" by simp
  with Cons show ?thesis by (simp add: py_in_def)
qed

lemma py_in_skip: "py_in sub rest \<Longrightarrow> py_in sub (front @ rest)"
  by (induction front) (auto simp: py_in_def)

lemma py_in_front: "py_in sub front \<Longrightarrow> py_in sub (front @ rest)"
proof (induction front)
  case Nil
  then have "sub = []" by (simp add: py_in_def split: if_splits)
  then show ?case using py_in_here [of "[]" rest] by simp
next
  case (Cons c cs)
  show ?case
  proof (cases "startswith (c # cs) sub")
    case True
    then obtain t where "c # cs = sub @ t" unfolding startswith_iff by blast
    then have "(c # cs) @ rest = sub @ (t @ rest)" by (metis append_assoc)
    then have "startswith ((c # cs) @ rest) sub" unfolding startswith_iff by blast
    then have "py_find ((c # cs) @ rest) sub = Some 0" by simp
    then show ?thesis by (simp add: py_in_def)
  next
    case False
    with Cons.prems have "py_in sub cs" by (auto simp: py_in_def)
    from Cons.IH [OF this] show ?thesis by (auto simp: py_in_def)
  qed
qed

lemma py_strip_decompose:
  "dropWhile py_isspace s =
     py_strip s @ rev (takeWhile py_isspace (rev (dropWhile py_isspace s)))"
proof -
  let ?d = "dropWhile py_isspace s"
  have "rev ?d = takeWhile py_isspace (rev ?d) @ dropWhile py_isspace (rev ?d)"
    by (simp only: takeWhile_dropWhile_id)
  then have "rev (rev ?d) =
      rev (takeWhile py_isspace (rev ?d) @ dropWhile py_isspace (rev ?d))"
    by (rule arg_cong)
  then have "?d = rev (dropWhile py_isspace (rev ?d)) @ rev (takeWhile py_isspace (rev ?d))"
    by (simp only: rev_rev_ident rev_append)
  then show ?thesis by (simp only: py_strip_def)
qed

lemma py_strip_parts:
  "\<exists>lead trail. s = lead @ py_strip s @ trail \<and>
     list_all py_isspace lead \<and> list_all py_isspace trail"
proof -
  let ?t = "takeWhile py_isspace (rev (dropWhile py_isspace s))"
  have "s = takeWhile py_isspace s @ dropWhile py_isspace s"
    by (simp only: takeWhile_dropWhile_id)
  with py_strip_decompose [of s] have "s = takeWhile py_isspace s @ py_strip s @ rev ?t"
    by (simp only:)
  moreover have "list_all py_isspace (takeWhile py_isspace s)"
    unfolding list_all_iff by (metis set_takeWhileD)
  moreover have "list_all py_isspace (rev ?t)"
    unfolding list_all_iff set_rev by (metis set_takeWhileD)
  ultimately show ?thesis by blast
qed

lemma py_strip_ends:
  assumes "py_strip s \<noteq> []"
  shows "\<not> py_isspace (hd (py_strip s)) \<and> \<not> py_isspace (last (py_strip s))"
proof -
  let ?d = "dropWhile py_isspace s"
  let ?e = "dropWhile py_isspace (rev ?d)"
  from assms have e: "?e \<noteq> []" by (simp add: py_strip_def)
  then have "\<not> py_isspace (hd ?e)" by (rule hd_dropWhile)
  with e have l: "\<not> py_isspace (last (py_strip s))" by (simp add: py_strip_def last_rev)
  have dn: "?d \<noteq> []"
  proof
    assume "?d = []"
    then have "?e = []" by (simp only: rev.simps dropWhile.simps)
    with e show False by simp
  qed
  then have hd: "\<not> py_isspace (hd ?d)" by (rule hd_dropWhile)
  from py_strip_decompose [of s] assms have "hd ?d = hd (py_strip s)" by (metis hd_append2)
  with hd l show ?thesis by simp
qed

section \<open>Properties of the nodes and of the graph\<close>

lemma route_test [simp]:
  "route [(''test'', run_tests), (''end'', END)] (should_test st) =
     (if truthy (current_code st) then run_tests else END)"
  by (simp add: route_def should_test_def)

lemma route_fix [simp]:
  "route [(''fix'', self_fix), (''end'', END)] (should_continue_fixing st) =
     (if \<not> task_complete st \<and> attempt_count st < max_attempts st then self_fix else END)"
  by (simp add: route_def should_continue_fixing_def)

lemma generate_code_node_state:
  assumes "generate_code_node w c = Inr c'"
  shows "attempt_count (state c') = attempt_count (state c)"
    and "max_attempts (state c') = max_attempts (state c)"
    and "task_complete (state c') = task_complete (state c)"
    and "generations c' = Suc (generations c)"
    and "test_runs c' = test_runs c"
    and "node c' = node c"
  using assms
  by (auto simp: generate_code_node_def Let_def
      split: read_csv_result.splits generate_result.splits write_result.splits sum.splits
        option.splits if_splits)

lemma run_tests_node_state:
  "attempt_count (state (run_tests_node w c)) = attempt_count (state c)"
  "max_attempts (state (run_tests_node w c)) = max_attempts (state c)"
  "generations (run_tests_node w c) = generations c"
  "files (run_tests_node w c) = files c"
  "prompts (run_tests_node w c) = prompts c"
  "test_runs (run_tests_node w c) = Suc (test_runs c)"
  by (simp_all add: run_tests_node_def Let_def split: run_result.splits)

lemma step_plan: "node c = plan \<Longrightarrow> step w c = c\<lparr>node := generate_code, state := plan_node (state c)\<rparr>"
  by (simp add: step_def)

lemma step_self_fix:
  "node c = self_fix \<Longrightarrow> step w c = c\<lparr>node := generate_code, state := self_fix_node (state c)\<rparr>"
  by (simp add: step_def)

lemma step_run_tests:
  "node c = run_tests \<Longrightarrow>
   step w c = (run_tests_node w c)\<lparr>node :=
     (if \<not> task_complete (state (run_tests_node w c)) \<and>
         attempt_count (state c) < max_attempts (state c) then self_fix else END)\<rparr>"
  by (simp add: step_def Let_def run_tests_node_state)

lemma step_generate_raises:
  "node c = generate_code \<Longrightarrow> generate_code_node w c = Inl e \<Longrightarrow>
   step w c = c\<lparr>node := Raised e, generations := Suc (generations c)\<rparr>"
  by (simp add: step_def)

lemma step_generate:
  "node c = generate_code \<Longrightarrow> generate_code_node w c = Inr c' \<Longrightarrow>
   step w c = c'\<lparr>node := (if truthy (current_code (state c')) then run_tests else END)\<rparr>"
  by (simp add: step_def)

lemma step_terminal: "terminal c \<Longrightarrow> step w c = c"
  by (auto simp: terminal_def step_def split: node.splits)

lemma step_max_attempts: "max_attempts (state (step w c)) = max_attempts (state c)"
proof (cases "node c")
  case generate_code
  then show ?thesis
    by (cases "generate_code_node w c")
      (simp_all add: step_generate_raises step_generate generate_code_node_state)
qed (simp_all add: step_def plan_node_def self_fix_node_def Let_def run_tests_node_state)

lemma step_attempt_count:
  "attempt_count (state (step w c)) =
     (if node c = self_fix then attempt_count (state c) + 1 else attempt_count (state c))"
proof (cases "node c")
  case generate_code
  then show ?thesis
    by (cases "generate_code_node w c")
      (simp_all add: step_generate_raises step_generate generate_code_node_state)
qed (simp_all add: step_def plan_node_def self_fix_node_def Let_def run_tests_node_state)


lemma run_tests_node_complete:
  "task_complete (state (run_tests_node w c)) \<longleftrightarrow>
     (\<exists>out err. subprocess_run w (test_runs c) (files c) = CompletedProcess 0 out err)"
  by (simp add: run_tests_node_def Let_def split: run_result.splits)

lemma invariant_initial: "invariant (initial_config w fs target limit)"
  by (simp add: invariant_def initial_config_def initial_state_def)

lemma invariant_step:
  assumes "invariant c"
  shows "invariant (step w c)"
proof (cases "node c")
  case plan
  with assms show ?thesis by (simp add: step_plan invariant_def plan_node_def)
next
  case generate_code
  show ?thesis
  proof (cases "generate_code_node w c")
    case (Inl e)
    with assms generate_code show ?thesis
      by (simp add: step_generate_raises invariant_def)
  next
    case (Inr c')
    with assms generate_code show ?thesis
      by (simp add: step_generate invariant_def generate_code_node_state [OF Inr])
  qed
next
  case run_tests
  with assms show ?thesis
    by (simp add: step_run_tests invariant_def run_tests_node_state)
next
  case self_fix
  with assms show ?thesis by (simp add: step_self_fix invariant_def self_fix_node_def)
next
  case END
  with assms show ?thesis by (simp add: step_def)
next
  case (Raised e)
  with assms show ?thesis by (simp add: step_def)
qed

lemma invariant_steps: "invariant c \<Longrightarrow> invariant (steps w n c)"
  by (induction n arbitrary: c) (simp_all add: invariant_step)

lemma steps_terminal: "terminal c \<Longrightarrow> steps w n c = c"
  by (cases n) simp_all

lemma steps_add: "steps w (n + m) c = steps w m (steps w n c)"
proof (induction n arbitrary: c)
  case 0
  show ?case by simp
next
  case (Suc n)
  show ?case
  proof (cases "terminal c")
    case True
    then show ?thesis by (simp add: steps_terminal)
  next
    case False
    with Suc show ?thesis by simp
  qed
qed

lemma steps_Suc: "steps w (Suc n) c = step w (steps w n c)"
proof -
  have "steps w (Suc n) c = steps w (n + 1) c" by simp
  also have "\<dots> = steps w 1 (steps w n c)" by (rule steps_add)
  also have "\<dots> = step w (steps w n c)" by (simp add: step_terminal)
  finally show ?thesis .
qed

lemma nat_left: "(a::int) < m \<Longrightarrow> nat (m - a) = Suc (nat (m - (a + 1)))"
  by arith

lemma remaining_step: "\<not> terminal c \<Longrightarrow> remaining (step w c) < remaining c"
proof (cases "node c")
  case plan
  then show ?thesis by (simp add: step_plan remaining_def plan_node_def)
next
  case generate_code
  show ?thesis
  proof (cases "generate_code_node w c")
    case (Inl e)
    with generate_code show ?thesis by (simp add: step_generate_raises remaining_def)
  next
    case (Inr c')
    with generate_code show ?thesis
      by (simp add: step_generate remaining_def generate_code_node_state [OF Inr])
  qed
next
  case run_tests
  then show ?thesis
    by (simp add: step_run_tests remaining_def run_tests_node_state Let_def nat_left)
next
  case self_fix
  then show ?thesis by (simp add: step_self_fix remaining_def self_fix_node_def)
next
  case END
  assume "\<not> terminal c"
  with END show ?thesis by (simp add: terminal_def)
next
  case (Raised e)
  assume "\<not> terminal c"
  with Raised show ?thesis by (simp add: terminal_def)
qed

lemma remaining_terminal: "remaining c = 0 \<Longrightarrow> terminal c"
  by (cases "node c") (simp_all add: remaining_def terminal_def Let_def)

lemma steps_reach_terminal: "remaining c \<le> n \<Longrightarrow> terminal (steps w n c)"
proof (induction n arbitrary: c)
  case 0
  then show ?case by (simp add: remaining_terminal)
next
  case (Suc n)
  show ?case
  proof (cases "terminal c")
    case True
    then show ?thesis by simp
  next
    case False
    from remaining_step [OF False, of w] Suc.prems have "remaining (step w c) \<le> n" by simp
    from Suc.IH [OF this] False show ?thesis by simp
  qed
qed

lemma remaining_initial:
  "1 \<le> limit \<Longrightarrow> remaining (initial_config w fs target limit) = 3 * nat limit"
  by (simp add: remaining_def initial_config_def initial_state_def Let_def)

lemma steps_max_attempts: "max_attempts (state (steps w n c)) = max_attempts (state c)"
  by (induction n arbitrary: c) (simp_all add: step_max_attempts)

section \<open>Evaluation of concrete runs\<close>

lemmas run_defs =
  sample_world_def failing_world_def passing_world_def initial_config_def initial_state_def
  step_def generate_code_node_def run_tests_node_def plan_node_def self_fix_node_def
  route_def should_test_def should_continue_fixing_def truthy_def terminal_def Let_def
  extract_code_def py_in_def py_split_def py_index_def split_loop.simps startswith_def
  py_strip_def py_isspace_def

section \<open>Termination of a run\<close>

text \<open>
  Claim C1. For every attempt limit of at least 1, whatever the reference file, the generation
  service and the test process answer, a run reaches a final configuration within three steps
  of the graph per allowed attempt, and it has then gone through at most limit plus one
  generation cycles.
\<close>

theorem run_terminates:
  assumes "1 \<le> limit" and "3 * nat limit \<le> fuel"
  shows "\<exists>c. run w fs fuel target (Some limit) = Some c \<and> terminal c \<and>
    int (generations c) \<le> limit + 1"
proof -
  let ?init = "initial_config w fs target limit"
  let ?c = "steps w fuel ?init"
  have "remaining ?init \<le> fuel" using assms by (simp add: remaining_initial)
  then have t: "terminal ?c" by (simp add: steps_reach_terminal)
  have inv: "invariant ?c" by (rule invariant_steps) (rule invariant_initial)
  have lim: "max_attempts (state ?c) = limit"
    by (simp add: steps_max_attempts initial_config_def initial_state_def)
  from t have "node ?c \<noteq> plan" "node ?c \<noteq> generate_code"
    by (auto simp: terminal_def)
  with inv lim assms(1) have "int (generations ?c) \<le> limit + 1"
    by (simp add: invariant_def)
  with t show ?thesis by (simp add: run_def invoke_def)
qed

theorem run_terminates_witness:
  "(1::int) \<le> 2 \<and> 3 * nat 2 \<le> (6::nat) \<and>
   (\<exists>c. run failing_world Map.empty 6 ''icici'' (Some 2) = Some c \<and> terminal c \<and>
      int (generations c) \<le> 2 + 1)"
  using run_terminates [of 2 6 failing_world Map.empty "''icici''"] by simp

lemma failing_run_3:
  "node (steps failing_world 3 (initial_config failing_world Map.empty ''icici'' 2)) = self_fix"
  by (simp add: numeral_3_eq_3 run_defs)

section \<open>The attempt counter\<close>

text \<open>
  Claim C9. In every run with an attempt limit of at least 1 the attempt counter never exceeds
  the limit itself, and it is below the limit whenever the correction node is about to run, so
  that the increment keeps it within the limit.
\<close>

theorem attempt_count_within_limit:
  assumes "1 \<le> limit"
  shows "attempt_count (state (steps w n (initial_config w fs target limit))) \<le> limit \<and>
    (node (steps w n (initial_config w fs target limit)) = self_fix \<longrightarrow>
       attempt_count (state (steps w n (initial_config w fs target limit))) < limit)"
proof -
  let ?c = "steps w n (initial_config w fs target limit)"
  have inv: "invariant ?c" by (rule invariant_steps) (rule invariant_initial)
  have lim: "max_attempts (state ?c) = limit"
    by (simp add: steps_max_attempts initial_config_def initial_state_def)
  from inv lim assms show ?thesis by (simp add: invariant_def)
qed

theorem attempt_count_within_limit_witness:
  "(1::int) \<le> 2 \<and>
   node (steps failing_world 3 (initial_config failing_world Map.empty ''icici'' 2)) = self_fix \<and>
   attempt_count (state (steps failing_world 3 (initial_config failing_world Map.empty ''icici'' 2)))
     < 2"
  using attempt_count_within_limit [of 2 failing_world 3 Map.empty "''icici''"] failing_run_3
  by simp

lemma steps_attempt_mono:
  "attempt_count (state (steps w n c)) \<le> attempt_count (state (steps w (Suc n) c))"
  unfolding steps_Suc by (simp add: step_attempt_count)

text \<open>
  The bound of claim C3 at a limit below zero: a run with limit \<open>-1\<close> starts with the counter at 1,
  above the limit plus one.
\<close>

theorem attempt_count_bound_counterexample:
  "attempt_count (state (steps failing_world 0 (initial_config failing_world Map.empty ''icici'' (- 1))))
     = 1 \<and>
   \<not> attempt_count (state (steps failing_world 0 (initial_config failing_world Map.empty ''icici'' (- 1))))
     \<le> (- 1) + 1"
  by (simp add: initial_config_def initial_state_def)

text \<open>
  Claim C3, with its bound for limits that are not negative. The attempt counter starts at 1,
  never decreases from one step of a run to the next, grows by exactly 1 in the correction step
  and is left alone by every other step; in a run with a limit of at least 0 it never exceeds
  the limit plus one.
\<close>

theorem attempt_count_monotone:
  "attempt_count (state (initial_config w fs target limit)) = 1 \<and>
   attempt_count (state (steps w n (initial_config w fs target limit)))
     \<le> attempt_count (state (steps w (Suc n) (initial_config w fs target limit))) \<and>
   (node c = self_fix \<longrightarrow> attempt_count (state (step w c)) = attempt_count (state c) + 1) \<and>
   (node d \<noteq> self_fix \<longrightarrow> attempt_count (state (step w d)) = attempt_count (state d)) \<and>
   (0 \<le> limit \<longrightarrow>
      attempt_count (state (steps w n (initial_config w fs target limit))) \<le> limit + 1)"
proof -
  let ?c = "steps w n (initial_config w fs target limit)"
  have inv: "invariant ?c" by (rule invariant_steps) (rule invariant_initial)
  have lim: "max_attempts (state ?c) = limit"
    by (simp add: steps_max_attempts initial_config_def initial_state_def)
  from inv lim have "attempt_count (state ?c) \<le> max 1 limit"
    by (simp add: invariant_def)
  then have "0 \<le> limit \<longrightarrow> attempt_count (state ?c) \<le> limit + 1"
    by arith
  moreover have "attempt_count (state (initial_config w fs target limit)) = 1"
    by (simp add: initial_config_def initial_state_def)
  ultimately show ?thesis
    using steps_attempt_mono [of w n "initial_config w fs target limit"]
    by (simp add: step_attempt_count)
qed

lemma failing_run_2:
  "node (steps failing_world 2 (initial_config failing_world Map.empty ''icici'' 2)) = run_tests"
  by (simp add: numeral_2_eq_2 run_defs)

theorem attempt_count_monotone_witness:
  "node (steps failing_world 3 (initial_config failing_world Map.empty ''icici'' 2)) = self_fix \<and>
   node (steps failing_world 2 (initial_config failing_world Map.empty ''icici'' 2)) \<noteq> self_fix \<and>
   (0::int) \<le> 2 \<and>
   attempt_count (state (step failing_world
     (steps failing_world 3 (initial_config failing_world Map.empty ''icici'' 2)))) =
   attempt_count (state (steps failing_world 3 (initial_config failing_world Map.empty ''icici'' 2)))
     + 1 \<and>
   attempt_count (state (step failing_world
     (steps failing_world 2 (initial_config failing_world Map.empty ''icici'' 2)))) =
   attempt_count (state (steps failing_world 2 (initial_config failing_world Map.empty ''icici'' 2)))
     \<and>
   attempt_count (state (steps failing_world 3 (initial_config failing_world Map.empty ''icici'' 2)))
     \<le> 2 + 1"
  using attempt_count_monotone [of failing_world Map.empty "''icici''" 2 3
      "steps failing_world 3 (initial_config failing_world Map.empty ''icici'' 2)"
      "steps failing_world 2 (initial_config failing_world Map.empty ''icici'' 2)"]
    failing_run_3 failing_run_2
  by simp

section \<open>The transitions after a verification\<close>

text \<open>
  Claim C4. The step that runs the tests marks the task complete exactly when the test process
  ends with return code 0; it leads to \<open>END\<close> exactly when the task is complete or the attempt
  counter has reached the limit, and to the correction node exactly when the task is not
  complete and the counter is below the limit. A configuration of a run in which the task is
  complete is at \<open>END\<close>, and the run stays in it: nothing is generated or verified afterwards.
\<close>

theorem testing_transitions:
  "(node c = run_tests \<longrightarrow>
      (task_complete (state (step w c)) \<longleftrightarrow>
         (\<exists>out err. subprocess_run w (test_runs c) (files c) = CompletedProcess 0 out err)) \<and>
      (node (step w c) = END \<longleftrightarrow>
         task_complete (state (step w c)) \<or>
         (\<not> task_complete (state (step w c)) \<and>
          max_attempts (state c) \<le> attempt_count (state c))) \<and>
      (node (step w c) = self_fix \<longleftrightarrow>
         \<not> task_complete (state (step w c)) \<and> attempt_count (state c) < max_attempts (state c))) \<and>
   (task_complete (state (steps w n (initial_config w fs target limit))) \<longrightarrow>
      node (steps w n (initial_config w fs target limit)) = END \<and>
      steps w (n + m) (initial_config w fs target limit) =
        steps w n (initial_config w fs target limit))"
proof -
  let ?c = "steps w n (initial_config w fs target limit)"
  have inv: "invariant ?c" by (rule invariant_steps) (rule invariant_initial)
  have frozen: "task_complete (state ?c) \<longrightarrow>
      node ?c = END \<and> steps w (n + m) (initial_config w fs target limit) = ?c"
  proof
    assume "task_complete (state ?c)"
    with inv have e: "node ?c = END" by (simp add: invariant_def)
    then have "terminal ?c" by (simp add: terminal_def)
    then have "steps w m ?c = ?c" by (rule steps_terminal)
    with e show "node ?c = END \<and> steps w (n + m) (initial_config w fs target limit) = ?c"
      by (simp add: steps_add)
  qed
  have "node c = run_tests \<longrightarrow>
      (task_complete (state (step w c)) \<longleftrightarrow>
         (\<exists>out err. subprocess_run w (test_runs c) (files c) = CompletedProcess 0 out err)) \<and>
      (node (step w c) = END \<longleftrightarrow>
         task_complete (state (step w c)) \<or>
         (\<not> task_complete (state (step w c)) \<and>
          max_attempts (state c) \<le> attempt_count (state c))) \<and>
      (node (step w c) = self_fix \<longleftrightarrow>
         \<not> task_complete (state (step w c)) \<and> attempt_count (state c) < max_attempts (state c))"
    by (auto simp: step_run_tests run_tests_node_complete)
  with frozen show ?thesis by blast
qed

lemma passing_run_2:
  "node (steps passing_world 2 (initial_config passing_world Map.empty ''icici'' 3)) = run_tests"
  by (simp add: numeral_2_eq_2 run_defs)

lemma passing_run_3:
  "task_complete (state (steps passing_world 3 (initial_config passing_world Map.empty ''icici'' 3)))"
  by (simp add: numeral_3_eq_3 run_defs)

theorem testing_transitions_witness:
  "node (steps passing_world 2 (initial_config passing_world Map.empty ''icici'' 3)) = run_tests \<and>
   task_complete (state (steps passing_world 3 (initial_config passing_world Map.empty ''icici'' 3))) \<and>
   node (step passing_world
     (steps passing_world 2 (initial_config passing_world Map.empty ''icici'' 3))) = END \<and>
   steps passing_world (3 + 5) (initial_config passing_world Map.empty ''icici'' 3) =
     steps passing_world 3 (initial_config passing_world Map.empty ''icici'' 3)"
proof -
  note t = testing_transitions [of
      "steps passing_world 2 (initial_config passing_world Map.empty ''icici'' 3)"
      passing_world 3 Map.empty "''icici''" 3 5]
  have s: "step passing_world
      (steps passing_world 2 (initial_config passing_world Map.empty ''icici'' 3)) =
      steps passing_world 3 (initial_config passing_world Map.empty ''icici'' 3)"
    using steps_Suc [of passing_world 2] by (simp add: numeral_3_eq_3 numeral_2_eq_2)
  from t passing_run_2 passing_run_3 s show ?thesis by simp
qed

section \<open>A generation without code\<close>

lemma generate_code_node_no_code:
  assumes "read_csv w (generations c) (csv_path (state c)) = Columns cols"
    and "generate_content w (length (prompts c)) (build_prompt cols (state c)) = r"
    and "no_code r"
  shows "generate_code_node w c =
    Inr (c\<lparr>prompts := prompts c @ [build_prompt cols (state c)],
           generations := Suc (generations c),
           state := (state c)\<lparr>current_code := None,
             test_results := Some (case r of
                 GenerateRaises e \<Rightarrow> ''An exception occurred during code generation: '' @ e
               | ResponseText t \<Rightarrow> ''Failed to generate valid Python code.'')\<rparr>\<rparr>)"
  using assms
  by (auto simp: generate_code_node_def Let_def no_code_def split: generate_result.splits)

text \<open>
  Claim C5. When the generation node runs, the reference file is read, and the generation yields
  no code (the service raises, or its response is empty or has no code to extract), then the step
  ends the run at once: the next node is \<open>END\<close> and no later step changes anything, the test
  process has not been started, the files are what they were, the failure is recorded as
  feedback, no code is kept and the attempt counter is not increased.
\<close>

theorem no_code_short_circuit:
  assumes "node c = generate_code"
    and "read_csv w (generations c) (csv_path (state c)) = Columns cols"
    and "generate_content w (length (prompts c)) (build_prompt cols (state c)) = r"
    and "no_code r"
  shows "node (step w c) = END \<and>
    test_runs (step w c) = test_runs c \<and>
    files (step w c) = files c \<and>
    current_code (state (step w c)) = None \<and>
    test_results (state (step w c)) =
      Some (case r of
          GenerateRaises e \<Rightarrow> ''An exception occurred during code generation: '' @ e
        | ResponseText t \<Rightarrow> ''Failed to generate valid Python code.'') \<and>
    attempt_count (state (step w c)) = attempt_count (state c) \<and>
    steps w n (step w c) = step w c"
proof -
  note g = generate_code_node_no_code [OF assms(2-4)]
  have s: "step w c = c\<lparr>prompts := prompts c @ [build_prompt cols (state c)],
           generations := Suc (generations c),
           state := (state c)\<lparr>current_code := None,
             test_results := Some (case r of
                 GenerateRaises e \<Rightarrow> ''An exception occurred during code generation: '' @ e
               | ResponseText t \<Rightarrow> ''Failed to generate valid Python code.'')\<rparr>,
           node := END\<rparr>"
    using step_generate [OF assms(1) g] by (simp add: truthy_def)
  then have "terminal (step w c)" by (simp add: terminal_def)
  then have "steps w n (step w c) = step w c" by (rule steps_terminal)
  with s show ?thesis by simp
qed


lemma first_generation_node: "node (first_generation w) = generate_code"
  by (simp add: first_generation_def step_def initial_config_def)

lemma sample_world_sel:
  "read_csv (sample_world columns answer result) n p = Columns columns"
  "generate_content (sample_world columns answer result) n q = answer"
  "write_text (sample_world columns answer result) n p q = Written"
  "subprocess_run (sample_world columns answer result) n fs = result"
  by (simp_all add: sample_world_def)

lemma no_code_blank: "no_code (ResponseText ''  \<newline>'')"
  by (simp add: no_code_def extract_code_def py_in_def startswith_def py_strip_def py_isspace_def)

theorem no_code_short_circuit_witness:
  "node (first_generation blank_world) = generate_code \<and>
   no_code (ResponseText ''  \<newline>'') \<and>
   node (step blank_world (first_generation blank_world)) = END \<and>
   test_runs (step blank_world (first_generation blank_world)) =
     test_runs (first_generation blank_world) \<and>
   files (step blank_world (first_generation blank_world)) = files (first_generation blank_world) \<and>
   test_results (state (step blank_world (first_generation blank_world))) =
     Some ''Failed to generate valid Python code.''"
  using no_code_short_circuit [of "first_generation blank_world" blank_world
      "[''Date'', ''Balance'']" "ResponseText ''  \<newline>''" 0]
    first_generation_node [of blank_world] no_code_blank
  by (simp add: blank_world_def sample_world_sel)

section \<open>The verification step\<close>

text \<open>
  The feedback of claim C6 after a failed test: with return code 1, output \<open>out\<close> and error
  output \<open>err\<close> the feedback is not the two texts put together.
\<close>

theorem test_feedback_counterexample:
  "subprocess_run failing_world (test_runs (first_generation failing_world))
     (files (first_generation failing_world)) = CompletedProcess 1 ''out'' ''err'' \<and>
   test_results (state (run_tests_node failing_world (first_generation failing_world))) \<noteq>
     Some (''out'' @ ''err'')"
  by (simp add: failing_world_def sample_world_sel run_tests_node_def Let_def)

text \<open>
  Claim C6, with the feedback the node writes. Return code 0 marks the task complete and sets the
  feedback to the success message; any other return code leaves the task incomplete and sets
  the feedback to a fixed heading followed by the standard output and the standard error, each
  under its label; an exception of the call (the timeout, a process that cannot be started) is
  caught, leaves the task incomplete and is recorded in the feedback. The step never leaves the
  graph by an exception: it leads to \<open>END\<close> or to the correction node.
\<close>

theorem run_tests_node_outcomes:
  "(subprocess_run w (test_runs c) (files c) = CompletedProcess 0 out err \<longrightarrow>
      task_complete (state (run_tests_node w c)) \<and>
      test_results (state (run_tests_node w c)) = Some ''All tests passed successfully.'') \<and>
   (subprocess_run w' (test_runs c') (files c') = CompletedProcess returncode out' err' \<and>
    returncode \<noteq> 0 \<longrightarrow>
      \<not> task_complete (state (run_tests_node w' c')) \<and>
      test_results (state (run_tests_node w' c')) =
        Some (''Tests failed.\<newline>STDOUT:\<newline>'' @ out' @ ''\<newline>STDERR:\<newline>'' @ err')) \<and>
   (subprocess_run w'' (test_runs c'') (files c'') = RunRaises e \<longrightarrow>
      \<not> task_complete (state (run_tests_node w'' c'')) \<and>
      test_results (state (run_tests_node w'' c'')) =
        Some (''An unexpected error occurred while running tests: '' @ e)) \<and>
   (node d = run_tests \<longrightarrow> node (step v d) = END \<or> node (step v d) = self_fix)"
  by (simp add: run_tests_node_def Let_def step_run_tests)

theorem run_tests_node_outcomes_witness:
  "subprocess_run passing_world (test_runs (first_generation passing_world))
     (files (first_generation passing_world)) = CompletedProcess 0 ''out'' ''err'' \<and>
   subprocess_run failing_world (test_runs (first_generation failing_world))
     (files (first_generation failing_world)) = CompletedProcess 1 ''out'' ''err'' \<and>
   (1::int) \<noteq> 0 \<and>
   subprocess_run timeout_world (test_runs (first_generation timeout_world))
     (files (first_generation timeout_world)) = RunRaises ''timed out after 60 seconds'' \<and>
   node (step passing_world (first_generation passing_world)) = run_tests \<and>
   task_complete (state (run_tests_node passing_world (first_generation passing_world))) \<and>
   test_results (state (run_tests_node failing_world (first_generation failing_world))) =
     Some (''Tests failed.\<newline>STDOUT:\<newline>'' @ ''out'' @ ''\<newline>STDERR:\<newline>'' @ ''err'') \<and>
   \<not> task_complete (state (run_tests_node timeout_world (first_generation timeout_world))) \<and>
   (node (step passing_world (step passing_world (first_generation passing_world))) = END \<or>
    node (step passing_world (step passing_world (first_generation passing_world))) = self_fix)"
proof -
  have n: "node (step passing_world (first_generation passing_world)) = run_tests"
    by (simp add: first_generation_def run_defs)
  show ?thesis
    using run_tests_node_outcomes [of passing_world "first_generation passing_world" "''out''"
        "''err''" failing_world "first_generation failing_world" 1 "''out''" "''err''"
        timeout_world "first_generation timeout_world" "''timed out after 60 seconds''"
        "step passing_world (first_generation passing_world)" passing_world] n
    by (simp add: passing_world_def failing_world_def timeout_world_def sample_world_sel)
qed


section \<open>The prompt and the reference file\<close>

lemma build_prompt_columns: "build_prompt cols st = build_prompt cols' st"
  by (simp add: build_prompt_def)

lemma generate_code_node_columns:
  assumes "read_csv w (generations c) (csv_path (state c)) = Columns cols"
  shows "generate_code_node (w\<lparr>read_csv := \<lambda>n p. Columns cols'\<rparr>) c = generate_code_node w c"
  using assms build_prompt_columns [of cols' "state c" cols]
  by (auto simp: generate_code_node_def Let_def
      split: generate_result.splits write_result.splits sum.splits option.splits)

lemma build_prompt_target: "py_in (target_bank st) (build_prompt cols st)"
  unfolding build_prompt_def by (rule py_in_skip, rule py_in_skip, rule py_in_here)

lemma build_prompt_feedback: "py_in (format_optional (test_results st)) (build_prompt cols st)"
  unfolding build_prompt_def by (rule py_in_here | rule py_in_skip)+

lemma build_prompt_schema:
  "py_in ''['Date', 'Description', 'Debit Amt', 'Credit Amt', 'Balance']'' (build_prompt cols st)"
  unfolding build_prompt_def
  by (rule py_in_skip, rule py_in_skip, rule py_in_skip, rule py_in_skip, rule py_in_skip,
      rule py_in_skip, rule py_in_skip, rule py_in_skip, rule py_in_front)
    (simp add: py_in_def startswith_def)

lemma step_read_raises:
  assumes "node d = generate_code"
    and "read_csv v (generations d) (csv_path (state d)) = ReadRaises e"
  shows "step v d = d\<lparr>node := Raised e, generations := Suc (generations d)\<rparr>"
  using assms by (simp add: step_def generate_code_node_def)

text \<open>
  The dependence of claim C7: two generation steps from the same configuration, in worlds that
  differ in the column names of the reference file only, send the same prompt.
\<close>

theorem prompt_columns_counterexample:
  "read_csv failing_world (generations (first_generation failing_world))
     (csv_path (state (first_generation failing_world))) = Columns [''Date'', ''Balance''] \<and>
   read_csv other_columns_world (generations (first_generation failing_world))
     (csv_path (state (first_generation failing_world))) = Columns [''When'', ''What'', ''Amount''] \<and>
   prompts (step other_columns_world (first_generation failing_world)) =
     prompts (step failing_world (first_generation failing_world))"
proof -
  have eq: "other_columns_world =
      failing_world\<lparr>read_csv := \<lambda>n p. Columns [''When'', ''What'', ''Amount'']\<rparr>"
    by (simp add: other_columns_world_def failing_world_def sample_world_def)
  have r: "read_csv failing_world (generations (first_generation failing_world))
     (csv_path (state (first_generation failing_world))) = Columns [''Date'', ''Balance'']"
    by (simp add: failing_world_def sample_world_sel)
  have "generate_code_node other_columns_world (first_generation failing_world) =
      generate_code_node failing_world (first_generation failing_world)"
    unfolding eq by (rule generate_code_node_columns [OF r])
  then have "step other_columns_world (first_generation failing_world) =
      step failing_world (first_generation failing_world)"
    by (simp add: step_def first_generation_node)
  with r show ?thesis by (simp add: other_columns_world_def sample_world_sel)
qed

text \<open>
  Claim C7, as the code has it. The prompt does not embed the column names read from the
  reference file: it is the same for any two lists of column names, and a generation step in a
  world that differs in the column names only has the same result and sends the same prompt.
  The prompt names the target, the feedback and a column list that is fixed in the code. The
  reference file is read all the same: when the read raises, the step ends the run with that
  exception and no prompt is sent.
\<close>

theorem prompt_ignores_columns:
  "build_prompt cols st = build_prompt cols' st \<and>
   py_in (target_bank st) (build_prompt cols st) \<and>
   py_in (format_optional (test_results st)) (build_prompt cols st) \<and>
   py_in ''['Date', 'Description', 'Debit Amt', 'Credit Amt', 'Balance']'' (build_prompt cols st) \<and>
   (node c = generate_code \<and> read_csv w (generations c) (csv_path (state c)) = Columns cols \<longrightarrow>
      step (w\<lparr>read_csv := \<lambda>n p. Columns cols'\<rparr>) c = step w c \<and>
      prompts (step w c) = prompts c @ [build_prompt cols (state c)]) \<and>
   (node d = generate_code \<and> read_csv v (generations d) (csv_path (state d)) = ReadRaises e \<longrightarrow>
      node (step v d) = Raised e \<and> prompts (step v d) = prompts d \<and>
      steps v n (step v d) = step v d)"
proof -
  have same: "step (w\<lparr>read_csv := \<lambda>n p. Columns cols'\<rparr>) c = step w c"
    if "node c = generate_code" "read_csv w (generations c) (csv_path (state c)) = Columns cols"
    using generate_code_node_columns [OF that(2), of cols'] that(1) by (simp add: step_def)
  have sent: "prompts (step w c) = prompts c @ [build_prompt cols (state c)]"
    if "node c = generate_code" "read_csv w (generations c) (csv_path (state c)) = Columns cols"
    using that
    by (auto simp: step_def generate_code_node_def Let_def
        split: generate_result.splits write_result.splits sum.splits option.splits)
  have raised: "node (step v d) = Raised e \<and> prompts (step v d) = prompts d \<and>
      steps v n (step v d) = step v d"
    if "node d = generate_code" "read_csv v (generations d) (csv_path (state d)) = ReadRaises e"
  proof -
    note s = step_read_raises [OF that]
    then have "terminal (step v d)" by (simp add: terminal_def)
    then have "steps v n (step v d) = step v d" by (rule steps_terminal)
    with s show ?thesis by simp
  qed
  from same sent raised build_prompt_target [of st cols] build_prompt_feedback [of st cols]
    build_prompt_schema [of cols st] build_prompt_columns [of cols st cols']
  show ?thesis by blast
qed

lemma first_generation_target: "target_bank (state (first_generation w)) = ''icici''"
  by (simp add: first_generation_def step_def initial_config_def initial_state_def plan_node_def)

theorem prompt_ignores_columns_witness:
  "node (first_generation failing_world) = generate_code \<and>
   read_csv failing_world (generations (first_generation failing_world))
     (csv_path (state (first_generation failing_world))) = Columns [''Date'', ''Balance''] \<and>
   node (first_generation unreadable_world) = generate_code \<and>
   read_csv unreadable_world (generations (first_generation unreadable_world))
     (csv_path (state (first_generation unreadable_world))) = ReadRaises ''No such file'' \<and>
   step other_columns_world (first_generation failing_world) =
     step failing_world (first_generation failing_world) \<and>
   py_in ''icici'' (build_prompt [''Date'', ''Balance''] (state (first_generation failing_world))) \<and>
   node (step unreadable_world (first_generation unreadable_world)) = Raised ''No such file''"
proof -
  have eq: "other_columns_world =
      failing_world\<lparr>read_csv := \<lambda>n p. Columns [''When'', ''What'', ''Amount'']\<rparr>"
    by (simp add: other_columns_world_def failing_world_def sample_world_def)
  have r: "read_csv failing_world (generations (first_generation failing_world))
     (csv_path (state (first_generation failing_world))) = Columns [''Date'', ''Balance'']"
    by (simp add: failing_world_def sample_world_sel)
  have u: "read_csv unreadable_world (generations (first_generation unreadable_world))
     (csv_path (state (first_generation unreadable_world))) = ReadRaises ''No such file''"
    by (simp add: unreadable_world_def)
  note t = prompt_ignores_columns [of "[''Date'', ''Balance'']"
      "state (first_generation failing_world)"
      "[''When'', ''What'', ''Amount'']" "first_generation failing_world" failing_world
      "first_generation unreadable_world" unreadable_world "''No such file''" 1]
  from t have "py_in (target_bank (state (first_generation failing_world)))
      (build_prompt [''Date'', ''Balance''] (state (first_generation failing_world)))"
    by blast
  then have p: "py_in ''icici''
      (build_prompt [''Date'', ''Balance''] (state (first_generation failing_world)))"
    by (simp only: first_generation_target)
  from t r u first_generation_node [of failing_world] first_generation_node [of unreadable_world]
  have "step (failing_world\<lparr>read_csv := \<lambda>n p. Columns [''When'', ''What'', ''Amount'']\<rparr>)
      (first_generation failing_world) = step failing_world (first_generation failing_world) \<and>
    node (step unreadable_world (first_generation unreadable_world)) = Raised ''No such file''"
    by blast
  with p r u first_generation_node [of failing_world] first_generation_node [of unreadable_world]
  show ?thesis unfolding eq by blast
qed

section \<open>The extraction of code\<close>

lemmas extract_defs =
  extract_code_def py_in_def py_split_def py_index_def split_loop.simps startswith_def
  py_strip_def py_isspace_def before_first_def

text \<open>
  The first part of claim C2 on a text whose closing run of backticks is followed by
  \<open>python\<close>: the text between the opening fence and the next fence, trimmed, is \<open>x = 1\<close>, and
  the extraction returns that text with a line break and a backtick behind it.
\<close>

theorem extract_code_inner_text_counterexample:
  "py_find ''```python\<newline>x = 1\<newline>````python'' ''```python'' = Some 0 \<and>
   py_strip (before_first ''```'' (drop (0 + 9) ''```python\<newline>x = 1\<newline>````python'')) = ''x = 1'' \<and>
   extract_code ''```python\<newline>x = 1\<newline>````python'' = Inr (Some ''x = 1\<newline>`'')"
  by (simp add: extract_defs)

text \<open>
  Claim C2, as the code has it. If the text contains the opening fence, the extraction returns,
  trimmed, what stands in front of the first fence inside the segment that runs from the first
  opening fence to the next opening fence (or to the end of the text); this is the inner text
  between the first opening fence and the next fence whenever that fence ends before any
  further opening fence begins, in particular when there is no further opening fence. If
  the text contains no opening fence and is not empty, the extraction returns the whole text
  trimmed; for the empty text it returns nothing.
\<close>

theorem extract_code_precedence:
  "(py_find text ''```python'' = Some i \<longrightarrow>
      extract_code text =
        Inr (Some (py_strip (before_first ''```''
          (before_first ''```python'' (drop (i + 9) text)))))) \<and>
   (py_find text ''```python'' = Some i \<and>
    py_find (drop (i + 9) text) ''```'' = Some p \<and>
    (py_find (drop (i + 9) text) ''```python'' = None \<or>
     (\<exists>q. py_find (drop (i + 9) text) ''```python'' = Some q \<and> p + 3 \<le> q)) \<longrightarrow>
      extract_code text = Inr (Some (py_strip (take p (drop (i + 9) text))))) \<and>
   (py_find plain ''```python'' = None \<and> plain \<noteq> [] \<longrightarrow>
      extract_code plain = Inr (Some (py_strip plain))) \<and>
   extract_code [] = Inr None"
proof -
  have a: "extract_code text = Inr (Some (py_strip (take p (drop (i + 9) text))))"
    if f: "py_find text ''```python'' = Some i"
      and c: "py_find (drop (i + 9) text) ''```'' = Some p"
      and n: "py_find (drop (i + 9) text) ''```python'' = None \<or>
        (\<exists>q. py_find (drop (i + 9) text) ''```python'' = Some q \<and> p + 3 \<le> q)"
    using extract_code_fenced [OF f] before_first_twice [OF c n] by simp
  have "extract_code [] = Inr None" by (simp add: extract_code_def py_in_def)
  with a show ?thesis by (auto simp: extract_code_fenced extract_code_plain)
qed

theorem extract_code_precedence_witness:
  "py_find ''Here:\<newline>```python\<newline>x = 1\<newline>```\<newline>Done.'' ''```python'' = Some 6 \<and>
   py_find (drop (6 + 9) ''Here:\<newline>```python\<newline>x = 1\<newline>```\<newline>Done.'') ''```'' = Some 7 \<and>
   py_find (drop (6 + 9) ''Here:\<newline>```python\<newline>x = 1\<newline>```\<newline>Done.'') ''```python'' = None \<and>
   py_find '' x = 1 '' ''```python'' = None \<and> '' x = 1 '' \<noteq> [] \<and>
   extract_code ''Here:\<newline>```python\<newline>x = 1\<newline>```\<newline>Done.'' =
     Inr (Some (py_strip (take 7 (drop (6 + 9) ''Here:\<newline>```python\<newline>x = 1\<newline>```\<newline>Done.'')))) \<and>
   extract_code '' x = 1 '' = Inr (Some (py_strip '' x = 1 ''))"
proof -
  have h: "py_find ''Here:\<newline>```python\<newline>x = 1\<newline>```\<newline>Done.'' ''```python'' = Some 6"
    "py_find (drop (6 + 9) ''Here:\<newline>```python\<newline>x = 1\<newline>```\<newline>Done.'') ''```'' = Some 7"
    "py_find (drop (6 + 9) ''Here:\<newline>```python\<newline>x = 1\<newline>```\<newline>Done.'') ''```python'' = None"
    "py_find '' x = 1 '' ''```python'' = None"
    by (simp_all add: startswith_def)
  have ne: "'' x = 1 '' \<noteq> []" by simp
  from extract_code_precedence [of "''Here:\<newline>```python\<newline>x = 1\<newline>```\<newline>Done.''" 6 7
      "'' x = 1 ''"] h ne
  show ?thesis by blast
qed


lemma no_code_whitespace:
  assumes "\<forall>ch\<in>set blank. py_isspace ch"
  shows "no_code (ResponseText blank)"
  using assms py_find_whitespace [OF assms] py_strip_whitespace [OF assms]
  by (simp add: no_code_def extract_code_plain)

text \<open>
  The first part of claim C10 on a text with two opening fences and no closing fence: the only
  fence behind the first opening fence is the second opening fence, and the extraction returns
  what stands between the two, not all text behind the first.
\<close>

theorem extract_code_open_fence_counterexample:
  "py_find ''```python a ```python b'' ''```python'' = Some 0 \<and>
   py_find (drop (0 + 9) ''```python a ```python b'') ''```'' = Some 3 \<and>
   py_find (drop (0 + 9) ''```python a ```python b'') ''```python'' = Some 3 \<and>
   py_find (drop (3 + 9) (drop (0 + 9) ''```python a ```python b'')) ''```'' = None \<and>
   py_strip (drop (0 + 9) ''```python a ```python b'') = ''a ```python b'' \<and>
   extract_code ''```python a ```python b'' = Inr (Some ''a'')"
  by (simp add: extract_defs)

text \<open>
  Claim C10, as the code has it. If the text contains the opening fence and no fence of any
  kind behind the first opening fence, the extraction returns everything behind that opening
  fence, trimmed: the result is that text without a leading and a trailing stretch of
  whitespace, and it neither begins nor ends with whitespace. If the text is not empty and
  consists of whitespace only, the extraction returns the empty text, and the generation step
  does with such a response what it does with an empty response, for which the extraction
  returns nothing: the step is the same, it ends the run, writes no file, starts no test and
  keeps no code.
\<close>

theorem extract_code_boundaries:
  "(py_find text ''```python'' = Some i \<and> py_find (drop (i + 9) text) ''```'' = None \<longrightarrow>
      extract_code text = Inr (Some (py_strip (drop (i + 9) text))) \<and>
      (\<exists>lead trail. drop (i + 9) text = lead @ py_strip (drop (i + 9) text) @ trail \<and>
         list_all py_isspace lead \<and> list_all py_isspace trail) \<and>
      (py_strip (drop (i + 9) text) \<noteq> [] \<longrightarrow>
         \<not> py_isspace (hd (py_strip (drop (i + 9) text))) \<and>
         \<not> py_isspace (last (py_strip (drop (i + 9) text))))) \<and>
   (blank \<noteq> [] \<and> (\<forall>ch\<in>set blank. py_isspace ch) \<longrightarrow>
      extract_code blank = Inr (Some []) \<and>
      (node c = generate_code \<and>
       read_csv w (generations c) (csv_path (state c)) = Columns cols \<and>
       generate_content w (length (prompts c)) (build_prompt cols (state c)) =
         ResponseText blank \<longrightarrow>
         step w c = step (w\<lparr>generate_content := \<lambda>n p. ResponseText []\<rparr>) c \<and>
         node (step w c) = END \<and>
         files (step w c) = files c \<and>
         test_runs (step w c) = test_runs c \<and>
         current_code (state (step w c)) = None))"
proof -
  have open_fence: "extract_code text = Inr (Some (py_strip (drop (i + 9) text)))"
    if f: "py_find text ''```python'' = Some i"
      and n: "py_find (drop (i + 9) text) ''```'' = None"
  proof -
    from n have "py_find (drop (i + 9) text) ''```python'' = None"
      by (rule no_fence_without_backticks)
    with n have "before_first ''```'' (before_first ''```python'' (drop (i + 9) text)) =
        drop (i + 9) text"
      by (simp add: before_first_def)
    with extract_code_fenced [OF f] show ?thesis by simp
  qed
  have blank_text: "extract_code blank = Inr (Some [])"
    if "blank \<noteq> []" and ws: "\<forall>ch\<in>set blank. py_isspace ch"
    using that py_find_whitespace [OF ws] py_strip_whitespace [OF ws]
    by (simp add: extract_code_plain)
  have blank_step:
    "step w c = step (w\<lparr>generate_content := \<lambda>n p. ResponseText []\<rparr>) c \<and>
     node (step w c) = END \<and> files (step w c) = files c \<and>
     test_runs (step w c) = test_runs c \<and> current_code (state (step w c)) = None"
    if ws: "\<forall>ch\<in>set blank. py_isspace ch"
      and nd: "node c = generate_code"
      and rd: "read_csv w (generations c) (csv_path (state c)) = Columns cols"
      and gn: "generate_content w (length (prompts c)) (build_prompt cols (state c)) =
        ResponseText blank"
  proof -
    let ?w = "w\<lparr>generate_content := \<lambda>n p. ResponseText []\<rparr>"
    have e: "no_code (ResponseText [])" by (simp add: no_code_def extract_code_def py_in_def)
    have g1: "generate_code_node w c = Inr (c\<lparr>prompts := prompts c @ [build_prompt cols (state c)],
           generations := Suc (generations c),
           state := (state c)\<lparr>current_code := None,
             test_results := Some ''Failed to generate valid Python code.''\<rparr>\<rparr>)"
      using generate_code_node_no_code [OF rd gn no_code_whitespace [OF ws]] by simp
    have g2: "generate_code_node ?w c = Inr (c\<lparr>prompts := prompts c @ [build_prompt cols (state c)],
           generations := Suc (generations c),
           state := (state c)\<lparr>current_code := None,
             test_results := Some ''Failed to generate valid Python code.''\<rparr>\<rparr>)"
      using generate_code_node_no_code [of ?w c cols "ResponseText []"] rd e by simp
    from step_generate [OF nd g1] step_generate [OF nd g2] show ?thesis
      by (simp add: truthy_def)
  qed
  from open_fence blank_text blank_step py_strip_parts [of "drop (i + 9) text"]
    py_strip_ends [of "drop (i + 9) text"]
  show ?thesis by blast
qed

theorem extract_code_boundaries_witness:
  "py_find ''ok ```python\<newline>x = 1\<newline>'' ''```python'' = Some 3 \<and>
   py_find (drop (3 + 9) ''ok ```python\<newline>x = 1\<newline>'') ''```'' = None \<and>
   ''  \<newline>'' \<noteq> [] \<and> list_all py_isspace ''  \<newline>'' \<and>
   node (first_generation blank_world) = generate_code \<and>
   extract_code ''ok ```python\<newline>x = 1\<newline>'' = Inr (Some ''x = 1'') \<and>
   extract_code ''  \<newline>'' = Inr (Some []) \<and>
   node (step blank_world (first_generation blank_world)) = END \<and>
   files (step blank_world (first_generation blank_world)) = files (first_generation blank_world)"
proof -
  have h: "py_find ''ok ```python\<newline>x = 1\<newline>'' ''```python'' = Some 3"
    "py_find (drop (3 + 9) ''ok ```python\<newline>x = 1\<newline>'') ''```'' = None"
    by (simp_all add: startswith_def)
  have v: "py_strip (drop (3 + 9) ''ok ```python\<newline>x = 1\<newline>'') = ''x = 1''"
    by (simp add: py_strip_def py_isspace_def)
  have b: "''  \<newline>'' \<noteq> []" "\<forall>ch\<in>set ''  \<newline>''. py_isspace ch"
    "list_all py_isspace ''  \<newline>''"
    by (simp_all add: py_isspace_def)
  have g: "read_csv blank_world (generations (first_generation blank_world))
      (csv_path (state (first_generation blank_world))) = Columns [''Date'', ''Balance'']"
    "generate_content blank_world (length (prompts (first_generation blank_world)))
      (build_prompt [''Date'', ''Balance''] (state (first_generation blank_world))) =
      ResponseText ''  \<newline>''"
    by (simp_all add: blank_world_def sample_world_sel)
  from extract_code_boundaries [of "''ok ```python\<newline>x = 1\<newline>''" 3 "''  \<newline>''"
      "first_generation blank_world" blank_world "[''Date'', ''Balance'']"]
    h b g first_generation_node [of blank_world]
  have "extract_code ''ok ```python\<newline>x = 1\<newline>'' =
      Inr (Some (py_strip (drop (3 + 9) ''ok ```python\<newline>x = 1\<newline>''))) \<and>
    extract_code ''  \<newline>'' = Inr (Some []) \<and>
    node (step blank_world (first_generation blank_world)) = END \<and>
    files (step blank_world (first_generation blank_world)) = files (first_generation blank_world)"
    by blast
  with h b first_generation_node [of blank_world] show ?thesis
    unfolding v by blast
qed

section \<open>The process entry surface\<close>

lemma invoke_max_attempts:
  "invoke w fuel c = Some c' \<Longrightarrow> max_attempts (state c') = max_attempts (state c)"
  by (auto simp: invoke_def steps_max_attempts split: if_splits)

lemma run_max_attempts:
  "run w fs fuel target limit_arg = Some c \<Longrightarrow>
   max_attempts (state c) = (case limit_arg of None \<Rightarrow> 3 | Some m \<Rightarrow> m)"
  by (auto simp: run_def initial_config_def initial_state_def dest: invoke_max_attempts)

lemma passing_run_end:
  "steps passing_world 3 (initial_config passing_world Map.empty ''icici'' 3) =
     (steps passing_world 3 (initial_config passing_world Map.empty ''icici'' 3))\<lparr>node := END\<rparr>"
  by (simp add: numeral_3_eq_3 run_defs)

lemma sample_parse_plain:
  "sample_parse_args main_arguments [''--target'', ''icici'', ''--api-key'', ''secret''] =
     Some \<lparr>arg_target = ''icici'', arg_api_key = ''secret''\<rparr>"
  by (simp add: sample_parse_args_def main_arguments_def)

text \<open>
  The override of claim C8 on a command line: with a retry limit on the command line the
  process ends in the parser and nothing is run; without it the run has the limit 3.
\<close>

theorem main_override_counterexample:
  "main sample_parse_args sample_service Map.empty 3
     [''--target'', ''icici'', ''--api-key'', ''secret'', ''--max-attempts'', ''5''] = SystemExit \<and>
   map_option max_attempts (map_option state
     (run passing_world Map.empty 3 ''icici'' None)) = Some 3 \<and>
   main sample_parse_args sample_service Map.empty 3
     [''--target'', ''icici'', ''--api-key'', ''secret''] =
     Ran (run passing_world Map.empty 3 ''icici'' None)"
proof -
  have t: "terminal (steps passing_world 3 (initial_config passing_world Map.empty ''icici'' 3))"
    by (subst passing_run_end) (simp add: terminal_def)
  have "main sample_parse_args sample_service Map.empty 3
     [''--target'', ''icici'', ''--api-key'', ''secret'', ''--max-attempts'', ''5''] = SystemExit"
    by (simp add: main_def sample_parse_args_def main_arguments_def)
  moreover have "map_option max_attempts (map_option state
     (run passing_world Map.empty 3 ''icici'' None)) = Some 3"
    using t by (simp add: run_def invoke_def steps_max_attempts initial_config_def initial_state_def)
  moreover have "main sample_parse_args sample_service Map.empty 3
     [''--target'', ''icici'', ''--api-key'', ''secret''] =
     Ran (run passing_world Map.empty 3 ''icici'' None)"
    by (simp add: main_def sample_parse_plain sample_service_def)
  ultimately show ?thesis by blast
qed

text \<open>
  Claim C8, as the code has it. \<open>main\<close> declares exactly two command-line arguments, the target
  and the key of the generation service, both required. Whatever the parser makes of a command
  line, the run that \<open>main\<close> starts is the run for the parsed target with the limit 3, so every
  run started from the process entry has the retry limit 3. The override is the optional
  parameter of \<open>run\<close>: left out it stands for 3, given it is the limit of the run.
\<close>

theorem entry_surface:
  "map option_string main_arguments = [''--target'', ''--api-key''] \<and>
   list_all required main_arguments \<and>
   (parse_args main_arguments argv = Some args \<longrightarrow>
      main parse_args service fs fuel argv =
        Ran (run (service (arg_api_key args)) fs fuel (arg_target args) (Some 3))) \<and>
   (main parse_args service fs fuel argv = Ran (Some c) \<longrightarrow> max_attempts (state c) = 3) \<and>
   run w fs fuel target None = run w fs fuel target (Some 3) \<and>
   (run w fs fuel target (Some limit) = Some d \<longrightarrow> max_attempts (state d) = limit)"
proof -
  have "max_attempts (state c) = 3" if "main parse_args service fs fuel argv = Ran (Some c)"
  proof (cases "parse_args main_arguments argv")
    case None
    with that show ?thesis by (simp add: main_def)
  next
    case (Some a)
    with that have "run (service (arg_api_key a)) fs fuel (arg_target a) None = Some c"
      by (simp add: main_def)
    from run_max_attempts [OF this] show ?thesis by simp
  qed
  moreover have "max_attempts (state d) = limit" if "run w fs fuel target (Some limit) = Some d"
    using run_max_attempts [OF that] by simp
  ultimately show ?thesis
    by (simp add: main_arguments_def main_def run_def)
qed

theorem entry_surface_witness:
  "sample_parse_args main_arguments [''--target'', ''icici'', ''--api-key'', ''secret''] =
     Some \<lparr>arg_target = ''icici'', arg_api_key = ''secret''\<rparr> \<and>
   main sample_parse_args sample_service Map.empty 3
     [''--target'', ''icici'', ''--api-key'', ''secret''] =
     Ran (Some (steps passing_world 3 (initial_config passing_world Map.empty ''icici'' 3))) \<and>
   run passing_world Map.empty 3 ''icici'' (Some 3) =
     Some (steps passing_world 3 (initial_config passing_world Map.empty ''icici'' 3)) \<and>
   max_attempts (state (steps passing_world 3 (initial_config passing_world Map.empty ''icici'' 3)))
     = 3"
proof -
  have t: "terminal (steps passing_world 3 (initial_config passing_world Map.empty ''icici'' 3))"
    by (subst passing_run_end) (simp add: terminal_def)
  then have r: "run passing_world Map.empty 3 ''icici'' (Some 3) =
     Some (steps passing_world 3 (initial_config passing_world Map.empty ''icici'' 3))"
    by (simp add: run_def invoke_def)
  from entry_surface [of sample_parse_args
      "[''--target'', ''icici'', ''--api-key'', ''secret'']"
      "\<lparr>arg_target = ''icici'', arg_api_key = ''secret''\<rparr>" sample_service Map.empty 3
      "steps passing_world 3 (initial_config passing_world Map.empty ''icici'' 3)"
      passing_world "''icici''" 3
      "steps passing_world 3 (initial_config passing_world Map.empty ''icici'' 3)"]
    sample_parse_plain r
  show ?thesis by (simp add: sample_service_def)
qed

end
